theory Spec2Isabelle
  imports Main "HOL-Library.AList"
begin

section \<open>The page script \<^verbatim>\<open>script.js\<close>: data model\<close>

text \<open>
  The script is one \<^verbatim>\<open>DOMContentLoaded\<close> listener. It looks a handful of elements up
  once, writes the year, marks the navigation link of the current page, and attaches three
  kinds of listeners (toggle click, link click, form submit). The model keeps exactly the
  parts of the DOM the script reads or writes.

  Strings are \<^typ>\<open>string\<close>, a list of bytes: a JavaScript string is taken in its UTF-8
  encoding. The script only compares strings, tests them for emptiness and splits them at
  the ASCII character \<^verbatim>\<open>/\<close>, and the byte of \<^verbatim>\<open>/\<close> occurs in no multi-byte
  UTF-8 sequence, so the encoding does not change any result.

  A JavaScript value that is either a string or \<^verbatim>\<open>null\<close>/\<^verbatim>\<open>undefined\<close> is a
  \<^typ>\<open>string option\<close>, with \<^term>\<open>None\<close> for \<^verbatim>\<open>null\<close>/\<^verbatim>\<open>undefined\<close>.
\<close>

datatype error = TypeError

text \<open>
  An element: its class list (the ordered token set behind \<^verbatim>\<open>classList\<close>), its
  attributes in document order, and its text content.
\<close>

record element =
  classList :: "string list"
  attributes :: "(string \<times> string) list"
  textContent :: string

text \<open>
  A form control with a string \<^verbatim>\<open>value\<close>. \<open>in_form\<close> says whether the control
  is owned by the subscription form (and so is reset by \<^verbatim>\<open>form.reset()\<close>);
  \<^verbatim>\<open>document.getElementById('subEmail')\<close> searches the whole document, so the
  control it finds need not be owned by the form.
\<close>

record control =
  ctl_id :: string
  el_value :: string
  defaultValue :: string
  in_form :: bool

text \<open>The only callback the script ever passes to \<^verbatim>\<open>setTimeout\<close>.\<close>

datatype callback = ClearMsg

record timer =
  due :: nat
  callback :: callback

record event =
  defaultPrevented :: bool

text \<open>
  The page: the elements the script looks up (\<^term>\<open>None\<close> when the host page has no
  such element), the node list of \<^verbatim>\<open>querySelectorAll('.main-nav a')\<close>, the controls of
  the document in document order, the pending timers in the order they were scheduled, and
  the clock. The elements are distinct nodes of the document.
\<close>

record page =
  yearEl :: "element option"
  navToggle :: "element option"
  mainNav :: "element option"
  navLinks :: "element list"
  form :: "element option"
  msg :: "element option"
  controls :: "control list"
  timers :: "timer list"
  now :: nat

section \<open>DOM and language primitives\<close>

text \<open>\<^verbatim>\<open>classList.contains\<close>, \<^verbatim>\<open>add\<close>, \<^verbatim>\<open>remove\<close> and \<^verbatim>\<open>toggle\<close>
  (\<^verbatim>\<open>toggle\<close> returns whether the token is present afterwards).\<close>

definition classList_contains :: "string \<Rightarrow> element \<Rightarrow> bool" where
  "classList_contains tok el = (tok \<in> set (classList el))"

definition classList_add :: "string \<Rightarrow> element \<Rightarrow> element" where
  "classList_add tok el =
     (if tok \<in> set (classList el) then el else el\<lparr>classList := classList el @ [tok]\<rparr>)"

definition classList_remove :: "string \<Rightarrow> element \<Rightarrow> element" where
  "classList_remove tok el = el\<lparr>classList := removeAll tok (classList el)\<rparr>"

definition classList_toggle :: "string \<Rightarrow> element \<Rightarrow> bool \<times> element" where
  "classList_toggle tok el =
     (if tok \<in> set (classList el) then (False, classList_remove tok el)
      else (True, classList_add tok el))"

text \<open>\<^verbatim>\<open>getAttribute\<close> (\<^verbatim>\<open>null\<close> when the attribute is absent) and
  \<^verbatim>\<open>setAttribute\<close>.\<close>

definition getAttribute :: "string \<Rightarrow> element \<Rightarrow> string option" where
  "getAttribute name el = map_of (attributes el) name"

definition setAttribute :: "string \<Rightarrow> string \<Rightarrow> element \<Rightarrow> element" where
  "setAttribute name v el = el\<lparr>attributes := AList.update name v (attributes el)\<rparr>"

definition set_textContent :: "string \<Rightarrow> element \<Rightarrow> element" where
  "set_textContent t el = el\<lparr>textContent := t\<rparr>"

text \<open>\<^verbatim>\<open>String(b)\<close> for a boolean.\<close>

definition String_bool :: "bool \<Rightarrow> string" where
  "String_bool b = (if b then ''true'' else ''false'')"

text \<open>The decimal form of a number, as the assignment of a number to
  \<^verbatim>\<open>textContent\<close> produces it.\<close>

definition digit_char :: "nat \<Rightarrow> char" where
  "digit_char d = char_of (48 + d)"

fun String_nat :: "nat \<Rightarrow> string" where
  "String_nat n =
     (if n < 10 then [digit_char n] else String_nat (n div 10) @ [digit_char (n mod 10)])"

declare String_nat.simps [simp del]

text \<open>
  \<^verbatim>\<open>s.split(sep)\<close> for a one-character separator: the segments between the
  separators, scanning left to right; \<open>cur\<close> is the segment being read. The result is
  never empty (the empty string splits into one empty segment).
\<close>

fun split_from :: "char \<Rightarrow> string \<Rightarrow> string \<Rightarrow> string list" where
  "split_from sep cur [] = [cur]"
| "split_from sep cur (c # cs) =
     (if c = sep then cur # split_from sep [] cs else split_from sep (cur @ [c]) cs)"

definition js_split :: "char \<Rightarrow> string \<Rightarrow> string list" where
  "js_split sep s = split_from sep [] s"

text \<open>\<^verbatim>\<open>Array.prototype.pop\<close>, for its result: the last element, \<^verbatim>\<open>undefined\<close>
  on an empty array.\<close>

definition pop :: "string list \<Rightarrow> string option" where
  "pop xs = (if xs = [] then None else Some (last xs))"

text \<open>\<^verbatim>\<open>a || b\<close> where \<open>a\<close> is a string, \<^verbatim>\<open>null\<close> or \<^verbatim>\<open>undefined\<close>:
  \<open>b\<close> when \<open>a\<close> is falsy (absent or the empty string).\<close>

definition falsy :: "string option \<Rightarrow> bool" where
  "falsy v = (case v of None \<Rightarrow> True | Some s \<Rightarrow> s = [])"

definition or_else :: "string option \<Rightarrow> string \<Rightarrow> string" where
  "or_else a b = (case a of None \<Rightarrow> b | Some s \<Rightarrow> if s = [] then b else s)"

text \<open>\<^verbatim>\<open>document.getElementById(id)\<close> among the controls: the first one in document
  order with that id.\<close>

definition getElementById :: "string \<Rightarrow> control list \<Rightarrow> control option" where
  "getElementById i cs = find (\<lambda>c. ctl_id c = i) cs"

text \<open>\<^verbatim>\<open>form.reset()\<close>: every control the form owns goes back to its default value.\<close>

definition reset_control :: "control \<Rightarrow> control" where
  "reset_control c = (if in_form c then c\<lparr>el_value := defaultValue c\<rparr> else c)"

definition form_reset :: "control list \<Rightarrow> control list" where
  "form_reset cs = map reset_control cs"

text \<open>\<^verbatim>\<open>setTimeout(cb, delay)\<close>: one more pending timer; nothing in the script ever
  cancels one.\<close>

definition setTimeout :: "callback \<Rightarrow> nat \<Rightarrow> page \<Rightarrow> page" where
  "setTimeout cb delay s = s\<lparr>timers := timers s @ [\<lparr>due = now s + delay, callback = cb\<rparr>]\<rparr>"

section \<open>The script\<close>

text \<open>The message texts; the dash of the confirmation is U+2014, three bytes in UTF-8.\<close>

definition invalid_text :: string where
  "invalid_text = ''Please enter a valid email.''"

definition thanks_text :: string where
  "thanks_text = ''Thanks '' @ [CHR 0xE2, CHR 0x80, CHR 0x94] @ '' you are subscribed!''"

subsection \<open>Navigation toggle (lines 9 to 14)\<close>

text \<open>
  The click listener of the toggle, with the toggle element \<open>t\<close> it closes over.
  \<^verbatim>\<open>mainNav.classList\<close> on a missing panel throws before anything is written.
\<close>

definition navToggle_onclick :: "element \<Rightarrow> page \<Rightarrow> error + page" where
  "navToggle_onclick t s =
     (case mainNav s of
        None \<Rightarrow> Inl TypeError
      | Some nav \<Rightarrow>
          (let (opn, nav') = classList_toggle ''open'' nav
           in Inr (s\<lparr>mainNav := Some nav',
                     navToggle := Some (setAttribute ''aria-expanded'' (String_bool opn) t)\<rparr>)))"

subsection \<open>Active link (lines 17 to 26) and link click (lines 28 to 32)\<close>

definition current_of :: "string \<Rightarrow> string" where
  "current_of pathname = or_else (pop (js_split CHR ''/'' pathname)) ''index.html''"

definition filename_of :: "element \<Rightarrow> string option" where
  "filename_of a =
     (let href = or_else (getAttribute ''href'' a) '''';
          target = (if href = '''' then ''index.html'' else href)
      in pop (js_split CHR ''/'' target))"

definition highlight :: "string \<Rightarrow> element \<Rightarrow> element" where
  "highlight current a =
     (let filename = filename_of a
      in if filename = Some current \<or> (current = '''' \<and> filename = Some ''index.html'')
         then classList_add ''active'' a
         else classList_remove ''active'' a)"

definition link_onclick :: "page \<Rightarrow> error + page" where
  "link_onclick s =
     (case mainNav s of
        None \<Rightarrow> Inl TypeError
      | Some nav \<Rightarrow>
          (if classList_contains ''open'' nav
           then Inr (s\<lparr>mainNav := Some (classList_remove ''open'' nav)\<rparr>)
           else Inr s))"

subsection \<open>Subscription form (lines 36 to 56)\<close>

definition clear_msg :: "page \<Rightarrow> page" where
  "clear_msg s = s\<lparr>msg := map_option (set_textContent '''') (msg s)\<rparr>"

fun run_callback :: "callback \<Rightarrow> page \<Rightarrow> page" where
  "run_callback ClearMsg s = clear_msg s"

text \<open>The submit listener; it runs only on a page that has the form.\<close>

definition form_onsubmit :: "event \<Rightarrow> page \<Rightarrow> event \<times> page" where
  "form_onsubmit e s =
     (let e' = e\<lparr>defaultPrevented := True\<rparr>;
          email = map_option el_value (getElementById ''subEmail'' (controls s))
      in if falsy email
         then (e', s\<lparr>msg := map_option (set_textContent invalid_text) (msg s)\<rparr>)
         else (e', setTimeout ClearMsg 3500
                     (s\<lparr>msg := map_option (set_textContent thanks_text) (msg s),
                        controls := form_reset (controls s)\<rparr>)))"

subsection \<open>Page ready (lines 1 to 57)\<close>

text \<open>
  The \<^verbatim>\<open>DOMContentLoaded\<close> listener, given the year of the clock and
  \<^verbatim>\<open>location.pathname\<close>. The listeners it attaches are the functions above; which of
  them are attached is decided in \<open>dispatch\<close> below.
\<close>

definition page_ready :: "nat \<Rightarrow> string \<Rightarrow> page \<Rightarrow> page" where
  "page_ready year pathname s =
     s\<lparr>yearEl := map_option (set_textContent (String_nat year)) (yearEl s),
       navLinks := map (highlight (current_of pathname)) (navLinks s)\<rparr>"

section \<open>Events after page ready\<close>

text \<open>
  What can happen to the page once the listeners are attached: a click on the toggle, a
  click on the \<open>i\<close>-th navigation link, a submission of the form, the passing of \<open>d\<close>
  time units, and the user replacing the value of the \<open>i\<close>-th control.
\<close>

datatype ev = ToggleClick | LinkClick nat | Submit | Tick nat | UserInput nat string

text \<open>
  Time passes: the timers that are due run in the order of their due times (scheduling
  order among equal ones) and leave the pending list.
\<close>

definition advance :: "nat \<Rightarrow> page \<Rightarrow> page" where
  "advance d s =
     (let t = now s + d;
          fired = filter (\<lambda>x. due x \<le> t) (timers s);
          pending = filter (\<lambda>x. \<not> due x \<le> t) (timers s)
      in fold (\<lambda>x. run_callback (callback x)) (sort_key due fired)
           (s\<lparr>now := t, timers := pending\<rparr>))"

definition user_input :: "nat \<Rightarrow> string \<Rightarrow> page \<Rightarrow> page" where
  "user_input i v s =
     (if i < length (controls s)
      then s\<lparr>controls := (controls s)[i := (controls s ! i)\<lparr>el_value := v\<rparr>]\<rparr>
      else s)"

text \<open>
  One event: the listener attached for it runs, if one was attached
  (\<^verbatim>\<open>navToggle?.addEventListener\<close> and \<^verbatim>\<open>form?.addEventListener\<close> attach nothing to
  a missing element; every element of the link list has its listener). An event reaches
  the listener of its own target only: the toggle is not one of the links and does not
  contain one. The navigation that a click on a link starts in the browser is not part
  of the model; the page is observed as the listener leaves it.
\<close>

fun dispatch :: "ev \<Rightarrow> page \<Rightarrow> error + page" where
  "dispatch ToggleClick s =
     (case navToggle s of None \<Rightarrow> Inr s | Some t \<Rightarrow> navToggle_onclick t s)"
| "dispatch (LinkClick i) s = (if i < length (navLinks s) then link_onclick s else Inr s)"
| "dispatch Submit s =
     (case form s of
        None \<Rightarrow> Inr s
      | Some f \<Rightarrow> Inr (snd (form_onsubmit \<lparr>defaultPrevented = False\<rparr> s)))"
| "dispatch (Tick d) s = Inr (advance d s)"
| "dispatch (UserInput i v) s = Inr (user_input i v s)"

text \<open>
  The event loop: an exception that escapes a listener is reported and the page lives
  on. Both listeners that can throw do so before they write anything, so the page after
  the throw is the page before the event. The result is the final page and the exceptions
  reported, oldest first.
\<close>

fun run :: "ev list \<Rightarrow> page \<Rightarrow> page \<times> error list" where
  "run [] s = (s, [])"
| "run (e # es) s =
     (case dispatch e s of
        Inl err \<Rightarrow> (let (s', errs) = run es s in (s', err # errs))
      | Inr s1 \<Rightarrow> run es s1)"

section \<open>Observations and the specification's wording\<close>

text \<open>The open/closed boolean of the navigation panel: whether its class list has
  \<^verbatim>\<open>open\<close>. The value of the toggle's \<^verbatim>\<open>aria-expanded\<close> attribute. The text of
  the status message, when the page has the message element.\<close>

definition panel_open :: "page \<Rightarrow> bool" where
  "panel_open s =
     (case mainNav s of None \<Rightarrow> False | Some nav \<Rightarrow> classList_contains ''open'' nav)"

definition aria_expanded :: "page \<Rightarrow> string option" where
  "aria_expanded s =
     (case navToggle s of None \<Rightarrow> None | Some t \<Rightarrow> getAttribute ''aria-expanded'' t)"

definition msg_text :: "page \<Rightarrow> string option" where
  "msg_text s = map_option textContent (msg s)"

text \<open>The links that carry the active marker.\<close>

definition active_links :: "page \<Rightarrow> element list" where
  "active_links s = filter (classList_contains ''active'') (navLinks s)"

text \<open>The time that passes during a sequence of events.\<close>

fun elapsed :: "ev list \<Rightarrow> nat" where
  "elapsed [] = 0"
| "elapsed (Tick d # es) = d + elapsed es"
| "elapsed (e # es) = elapsed es"

text \<open>
  The specification's wording of the filenames, written independently of the code: the
  last path segment is what follows the last \<^verbatim>\<open>/\<close> (the whole string when there is
  none); a link's resolved target filename is the last segment of its reference, where an
  empty or missing reference stands for the home file; the current filename is the last
  segment of the path, or the home file when that segment is empty.
\<close>

definition last_segment :: "string \<Rightarrow> string" where
  "last_segment s = rev (takeWhile (\<lambda>c. c \<noteq> CHR ''/'') (rev s))"

definition spec_target_filename :: "string option \<Rightarrow> string" where
  "spec_target_filename href =
     last_segment (case href of None \<Rightarrow> ''index.html''
                   | Some h \<Rightarrow> if h = [] then ''index.html'' else h)"

definition spec_current_filename :: "string \<Rightarrow> string" where
  "spec_current_filename pathname =
     (if last_segment pathname = [] then ''index.html'' else last_segment pathname)"

text \<open>The status message shows nothing: its text is empty, or the page has no message
  element.\<close>

definition blank :: "page \<Rightarrow> bool" where
  "blank s = (msg_text s = map_option (\<lambda>_. []) (msg s))"

section \<open>Sample pages\<close>

definition anchor :: "string \<Rightarrow> element" where
  "anchor href = \<lparr>classList = [], attributes = [(''href'', href)], textContent = ''''\<rparr>"

definition plain :: "string list \<Rightarrow> element" where
  "plain cls = \<lparr>classList = cls, attributes = [], textContent = ''''\<rparr>"

text \<open>A page with every element: the panel closed, two links, an empty email field.\<close>

definition sample_page :: page where
  "sample_page =
     \<lparr>yearEl = Some (plain []),
      navToggle = Some (plain [''nav-toggle'']),
      mainNav = Some (plain [''main-nav'']),
      navLinks = [anchor ''index.html'', anchor ''about.html''],
      form = Some (plain []),
      msg = Some (plain []),
      controls = [\<lparr>ctl_id = ''subEmail'', el_value = '''', defaultValue = '''',
                   in_form = True\<rparr>],
      timers = [],
      now = 0\<rparr>"

text \<open>The same page without the navigation panel element.\<close>

definition page_without_panel :: page where
  "page_without_panel = sample_page\<lparr>mainNav := None\<rparr>"

text \<open>Two links to different directories whose targets have the same filename.\<close>

definition twin_page :: page where
  "twin_page = sample_page\<lparr>navLinks := [anchor ''index.html'', anchor ''blog/index.html'']\<rparr>"

text \<open>A link to a directory.\<close>

definition slash_page :: page where
  "slash_page = sample_page\<lparr>navLinks := [anchor ''blog/'']\<rparr>"

text \<open>The sample page with an address typed into the email field, next to a second
  field of the form.\<close>

definition typed_email :: control where
  "typed_email =
     \<lparr>ctl_id = ''subEmail'', el_value = ''a@b.com'', defaultValue = '''', in_form = True\<rparr>"

definition typed_controls :: "control list" where
  "typed_controls =
     [typed_email,
      \<lparr>ctl_id = ''subName'', el_value = ''Ann'', defaultValue = '''', in_form = True\<rparr>]"

definition filled_page :: page where
  "filled_page = sample_page\<lparr>controls := typed_controls\<rparr>"

text \<open>A page whose form has a filled field but no element with the id
  \<^verbatim>\<open>subEmail\<close>.\<close>

definition page_without_email :: page where
  "page_without_email =
     sample_page\<lparr>controls :=
       [\<lparr>ctl_id = ''subName'', el_value = ''Ann'', defaultValue = '''', in_form = True\<rparr>]\<rparr>"


section \<open>Navigation toggle\<close>

lemma run_append:
  "run (xs @ ys) s = (let (s1, e1) = run xs s; (s2, e2) = run ys s1 in (s2, e1 @ e2))"
  by (induction xs arbitrary: s) (auto split: sum.splits prod.splits)

lemma run_seq:
  "run xs s = (s1, e1) \<Longrightarrow> run ys s1 = (s2, e2) \<Longrightarrow> run (xs @ ys) s = (s2, e1 @ e2)"
  by (simp add: run_append)

lemma getAttribute_setAttribute:
  "getAttribute n (setAttribute n v el) = Some v"
  by (simp add: getAttribute_def setAttribute_def update_Some_unfold)

text \<open>One click on the toggle of a page that has the toggle and the panel: no exception,
  the panel flips, and the attribute is the string form of the new state.\<close>

lemma toggle_click:
  assumes "navToggle s = Some t" "mainNav s = Some nav"
  shows "\<exists>s'. dispatch ToggleClick s = Inr s' \<and> navToggle s' \<noteq> None \<and> mainNav s' \<noteq> None
     \<and> panel_open s' = (\<not> panel_open s)
     \<and> aria_expanded s' = Some (String_bool (panel_open s'))"
  using assms
  by (auto simp: navToggle_onclick_def panel_open_def aria_expanded_def
      getAttribute_setAttribute classList_toggle_def classList_contains_def
      classList_add_def classList_remove_def split: prod.splits)

lemma toggles_run:
  assumes "navToggle s \<noteq> None" "mainNav s \<noteq> None"
  shows "snd (run (replicate N ToggleClick) s) = []
     \<and> navToggle (fst (run (replicate N ToggleClick) s)) \<noteq> None
     \<and> mainNav (fst (run (replicate N ToggleClick) s)) \<noteq> None
     \<and> panel_open (fst (run (replicate N ToggleClick) s)) = (panel_open s \<noteq> odd N)
     \<and> (0 < N \<longrightarrow> aria_expanded (fst (run (replicate N ToggleClick) s))
           = Some (String_bool (panel_open (fst (run (replicate N ToggleClick) s)))))"
proof (induction N)
  case 0
  show ?case using assms by simp
next
  case (Suc N)
  let ?s1 = "fst (run (replicate N ToggleClick) s)"
  from Suc obtain t nav where tn: "navToggle ?s1 = Some t" "mainNav ?s1 = Some nav"
    by auto
  from toggle_click[OF tn] obtain s' where s': "dispatch ToggleClick ?s1 = Inr s'"
    "navToggle s' \<noteq> None" "mainNav s' \<noteq> None" "panel_open s' = (\<not> panel_open ?s1)"
    "aria_expanded s' = Some (String_bool (panel_open s'))" by blast
  have r: "run (replicate N ToggleClick) s = (?s1, [])"
    using Suc by (simp add: prod_eq_iff)
  have e: "run [ToggleClick] ?s1 = (s', [])"
    using s'(1) by simp
  have "run (replicate N ToggleClick @ [ToggleClick]) s = (s', [] @ [])"
    using r e by (rule run_seq)
  then have "run (replicate (Suc N) ToggleClick) s = (s', [])"
    by (simp add: replicate_append_same)
  then show ?case using s' Suc by auto
qed

text \<open>What does hold on a page without the panel: the two clicks leave the page as it
  was.\<close>

lemma missing_panel_no_change:
  assumes "mainNav s = None" and "e = ToggleClick \<or> e = LinkClick i"
  shows "fst (run [e] s) = s"
  using assms
  by (auto simp: navToggle_onclick_def link_onclick_def split: option.splits)

text \<open>A click on a link leaves the panel closed and does not touch the toggle's
  attribute.\<close>

lemma link_click_closes:
  assumes "mainNav s = Some nav" and "i < length (navLinks s)"
  shows "\<exists>s'. dispatch (LinkClick i) s = Inr s' \<and> \<not> panel_open s'
     \<and> aria_expanded s' = aria_expanded s"
  using assms
  by (auto simp: link_onclick_def panel_open_def aria_expanded_def classList_contains_def
      classList_remove_def)

text \<open>
  C5. On a page that has the toggle and the panel, with the panel closed at first: after
  \<open>N\<close> activations of the toggle and nothing else, no exception was reported and the
  panel is open exactly when \<open>N\<close> is odd; and after each single activation (the
  \<open>k\<close>-th, for every \<open>k\<close> from 1 to \<open>N\<close>) the toggle's \<^verbatim>\<open>aria-expanded\<close> attribute
  is the string form of the panel's state at that moment.
\<close>

theorem toggle_parity:
  assumes "navToggle s = Some t" and "mainNav s = Some nav"
    and "\<not> classList_contains ''open'' nav" and "0 < k" and "k \<le> N"
  shows "snd (run (replicate N ToggleClick) s) = []
     \<and> panel_open (fst (run (replicate N ToggleClick) s)) = odd N
     \<and> snd (run (replicate k ToggleClick) s) = []
     \<and> aria_expanded (fst (run (replicate k ToggleClick) s))
         = Some (String_bool (panel_open (fst (run (replicate k ToggleClick) s))))"
proof -
  have p: "navToggle s \<noteq> None" "mainNav s \<noteq> None" "\<not> panel_open s"
    using assms by (simp_all add: panel_open_def)
  show ?thesis
    using toggles_run[OF p(1,2), of N] toggles_run[OF p(1,2), of k] p(3) \<open>0 < k\<close>
    by simp
qed

theorem toggle_parity_witness:
  "navToggle sample_page = Some (plain [''nav-toggle''])
   \<and> mainNav sample_page = Some (plain [''main-nav''])
   \<and> \<not> classList_contains ''open'' (plain [''main-nav''])
   \<and> (0::nat) < 2 \<and> (2::nat) \<le> 3
   \<and> snd (run (replicate 3 ToggleClick) sample_page) = []
   \<and> panel_open (fst (run (replicate 3 ToggleClick) sample_page)) = odd (3::nat)
   \<and> aria_expanded (fst (run (replicate 2 ToggleClick) sample_page)) = Some ''false''"
proof -
  have h: "navToggle sample_page = Some (plain [''nav-toggle''])"
    "mainNav sample_page = Some (plain [''main-nav''])"
    "\<not> classList_contains ''open'' (plain [''main-nav''])"
    by (simp_all add: sample_page_def plain_def classList_contains_def)
  have o: "\<not> panel_open (fst (run (replicate 2 ToggleClick) sample_page))"
    using toggle_parity[OF h, of 2 2] by simp
  show ?thesis
    using h o toggle_parity[OF h, of 2 3] by (simp add: String_bool_def)
qed

text \<open>
  C1. The claimed invariant fails on the sample page after a click on the toggle followed
  by a click on a link: neither listener throws, the link listener closes the panel, and
  \<^verbatim>\<open>aria-expanded\<close> still reads \<^verbatim>\<open>true\<close>, which is not the string form of the
  panel's state. The toggle listener writes the attribute; the link listener, which also
  changes the panel's state, does not.
\<close>

theorem link_click_leaves_aria_stale:
  "snd (run [ToggleClick, LinkClick 0] sample_page) = []
   \<and> \<not> panel_open (fst (run [ToggleClick, LinkClick 0] sample_page))
   \<and> aria_expanded (fst (run [ToggleClick, LinkClick 0] sample_page)) = Some ''true''
   \<and> String_bool (panel_open (fst (run [ToggleClick, LinkClick 0] sample_page))) = ''false''"
  by code_simp

text \<open>
  C2. On the sample page without the panel element, the toggle's listener and the link's
  listener both throw a TypeError (they read \<^verbatim>\<open>mainNav.classList\<close> with no guard), and
  the event loop reports it. The page itself is left as it was.
\<close>

theorem missing_panel_throws:
  "dispatch ToggleClick page_without_panel = Inl TypeError
   \<and> dispatch (LinkClick 0) page_without_panel = Inl TypeError
   \<and> run [ToggleClick, LinkClick 0] page_without_panel
       = (page_without_panel, [TypeError, TypeError])"
  by code_simp

section \<open>Active link\<close>

lemma split_from_nonempty: "split_from sep cur s \<noteq> []"
  by (induction s arbitrary: cur) auto

lemma last_split_from:
  "last (split_from sep cur s) =
     (if sep \<in> set s then rev (takeWhile (\<lambda>c. c \<noteq> sep) (rev s)) else cur @ s)"
  by (induction s arbitrary: cur) (auto simp: split_from_nonempty takeWhile_append)

lemma pop_js_split: "pop (js_split CHR ''/'' s) = Some (last_segment s)"
proof (cases "CHR ''/'' \<in> set s")
  case True
  then show ?thesis
    by (simp add: pop_def js_split_def split_from_nonempty last_split_from last_segment_def)
next
  case False
  then have "takeWhile (\<lambda>c. c \<noteq> CHR ''/'') (rev s) = rev s"
    by (intro takeWhile_eq_all_conv[THEN iffD2]) auto
  then have ls: "last_segment s = s"
    by (simp only: last_segment_def rev_rev_ident)
  show ?thesis
    using False by (simp add: pop_def js_split_def split_from_nonempty last_split_from ls)
qed

lemma current_of_spec: "current_of pathname = spec_current_filename pathname"
  by (simp add: current_of_def spec_current_filename_def pop_js_split or_else_def)

lemma filename_of_spec:
  "filename_of a = Some (spec_target_filename (getAttribute ''href'' a))"
  by (simp add: filename_of_def spec_target_filename_def pop_js_split or_else_def Let_def
      split: option.splits)

lemma current_of_nonempty: "current_of pathname \<noteq> []"
  by (simp add: current_of_def or_else_def split: option.splits)

lemma highlight_active:
  "classList_contains ''active'' (highlight cur a) =
     (filename_of a = Some cur \<or> (cur = [] \<and> filename_of a = Some ''index.html''))"
  by (simp add: highlight_def Let_def classList_contains_def classList_add_def
      classList_remove_def)

lemma highlight_attributes: "attributes (highlight cur a) = attributes a"
  by (simp add: highlight_def Let_def classList_add_def classList_remove_def)

lemma filename_of_highlight: "filename_of (highlight cur a) = filename_of a"
  by (simp add: filename_of_def getAttribute_def highlight_attributes)

lemma highlight_idem: "highlight cur (highlight cur a) = highlight cur a"
proof -
  have "filename_of (highlight cur a) = filename_of a" by (rule filename_of_highlight)
  then show ?thesis
    by (simp add: highlight_def[of cur "highlight cur a"] Let_def)
       (simp add: highlight_def Let_def classList_add_def classList_remove_def)
qed

lemma page_ready_idem:
  "page_ready year pathname (page_ready year pathname s) = page_ready year pathname s"
  by (cases "yearEl s") (simp_all add: page_ready_def highlight_idem set_textContent_def)

text \<open>
  C4. After the page-ready evaluation, whatever markers the links carried before, a link
  carries the active marker exactly when its resolved target filename (the last path
  segment of its reference, an empty or missing reference standing for
  \<^verbatim>\<open>index.html\<close>) equals the current filename (the last segment of the path, or
  \<^verbatim>\<open>index.html\<close> when that is empty); the references themselves are untouched; and
  evaluating a second time changes nothing.
\<close>

theorem active_exactly_matching:
  "map (classList_contains ''active'') (navLinks (page_ready year pathname s))
     = map (\<lambda>a. spec_target_filename (getAttribute ''href'' a) = spec_current_filename pathname)
         (navLinks s)
   \<and> map attributes (navLinks (page_ready year pathname s)) = map attributes (navLinks s)
   \<and> page_ready year pathname (page_ready year pathname s) = page_ready year pathname s"
proof -
  have c: "current_of pathname \<noteq> []" by (rule current_of_nonempty)
  have "map (classList_contains ''active'') (navLinks (page_ready year pathname s))
     = map (\<lambda>a. spec_target_filename (getAttribute ''href'' a) = spec_current_filename pathname)
         (navLinks s)"
    using c by (simp add: page_ready_def highlight_active filename_of_spec current_of_spec)
  moreover have "map attributes (navLinks (page_ready year pathname s)) = map attributes (navLinks s)"
    by (simp add: page_ready_def highlight_attributes)
  ultimately show ?thesis by (simp add: page_ready_idem)
qed

lemma fold_callbacks_navLinks:
  "navLinks (fold (\<lambda>x. run_callback (callback x)) xs s0) = navLinks s0"
proof (induction xs arbitrary: s0)
  case Nil
  show ?case by simp
next
  case (Cons x xs)
  show ?case by (cases "callback x") (simp add: Cons clear_msg_def)
qed

lemma dispatch_navLinks: "dispatch e s = Inr s' \<Longrightarrow> navLinks s' = navLinks s"
proof (cases e)
  case ToggleClick
  assume "dispatch e s = Inr s'"
  with ToggleClick show ?thesis
    by (auto simp: navToggle_onclick_def split: option.splits prod.splits)
next
  case (LinkClick i)
  assume "dispatch e s = Inr s'"
  with LinkClick show ?thesis
    by (auto simp: link_onclick_def split: option.splits if_splits)
next
  case Submit
  assume "dispatch e s = Inr s'"
  with Submit show ?thesis
    by (auto simp: form_onsubmit_def setTimeout_def Let_def split: option.splits if_splits)
next
  case (Tick d)
  assume "dispatch e s = Inr s'"
  with Tick show ?thesis
    by (auto simp: advance_def Let_def fold_callbacks_navLinks)
next
  case (UserInput i v)
  assume "dispatch e s = Inr s'"
  with UserInput show ?thesis
    by (auto simp: user_input_def split: if_splits)
qed

lemma run_navLinks: "navLinks (fst (run evs s)) = navLinks s"
proof (induction evs arbitrary: s)
  case Nil
  show ?case by simp
next
  case (Cons e evs)
  show ?case
  proof (cases "dispatch e s")
    case (Inl err)
    then show ?thesis using Cons[of s] by (cases "run evs s") simp
  next
    case (Inr s1)
    then show ?thesis using Cons[of s1] dispatch_navLinks[OF Inr] by simp
  qed
qed

lemma filter_distinct_key:
  "distinct (map f xs) \<Longrightarrow> length (filter (\<lambda>x. f x = v) xs) \<le> 1"
proof (induction xs)
  case Nil
  show ?case by simp
next
  case (Cons x xs)
  show ?case
  proof (cases "f x = v")
    case True
    from Cons.prems have "f x \<notin> f ` set xs" by simp
    with True have "\<forall>y\<in>set xs. f y \<noteq> v" by blast
    then have "filter (\<lambda>x. f x = v) xs = []" by (simp add: filter_empty_conv)
    with True show ?thesis by simp
  next
    case False
    with Cons show ?thesis by simp
  qed
qed

lemma active_after_ready:
  "length (active_links (page_ready year pathname s))
     = length (filter (\<lambda>a. filename_of a = Some (current_of pathname)) (navLinks s))"
  using current_of_nonempty[of pathname]
  by (simp add: active_links_def page_ready_def filter_map o_def highlight_active)

text \<open>
  C3, as stated, fails: two links whose targets have the same filename are both marked.
\<close>

theorem twin_links_both_active:
  "\<not> length (active_links (page_ready 2026 ''/index.html'' twin_page)) \<le> 1"
  by code_simp

text \<open>
  C3, amended. When the resolved target filenames of the navigation links are pairwise
  distinct, at most one link carries the active marker after the page-ready evaluation
  and after any sequence of later events (no listener touches a link's class list).
\<close>

theorem at_most_one_active:
  assumes "distinct (map filename_of (navLinks s))"
  shows "length (active_links (page_ready year pathname s)) \<le> 1
     \<and> length (active_links (fst (run evs (page_ready year pathname s)))) \<le> 1"
proof -
  have a: "length (active_links (page_ready year pathname s)) \<le> 1"
    using filter_distinct_key[OF assms] by (simp add: active_after_ready)
  have "active_links (fst (run evs (page_ready year pathname s)))
      = active_links (page_ready year pathname s)"
    by (simp add: active_links_def run_navLinks)
  with a show ?thesis by simp
qed

theorem at_most_one_active_witness:
  "distinct (map filename_of (navLinks sample_page))
   \<and> length (active_links (fst (run [ToggleClick, LinkClick 1, Submit, Tick 3500]
         (page_ready 2026 ''/about.html'' sample_page)))) = 1"
proof -
  have d: "distinct (map filename_of (navLinks sample_page))" by code_simp
  have "length (active_links (fst (run [ToggleClick, LinkClick 1, Submit, Tick 3500]
         (page_ready 2026 ''/about.html'' sample_page)))) \<noteq> 0" by code_simp
  then show ?thesis
    using d at_most_one_active[OF d, of 2026 "''/about.html''" "[ToggleClick, LinkClick 1, Submit, Tick 3500]"]
    by linarith
qed

text \<open>
  C9. A link whose reference is not empty and ends in \<^verbatim>\<open>/\<close> has the empty string as
  its target filename (the default applies to an empty or missing reference only); the
  current filename is never empty; so such a link is not marked active by the page-ready
  evaluation, and the second disjunct of the script's test (an empty current filename
  with the target \<^verbatim>\<open>index.html\<close>) holds for no link \<open>b\<close>.
\<close>

theorem trailing_slash_never_active:
  assumes "getAttribute ''href'' a = Some h" and "h \<noteq> []" and "last h = CHR ''/''"
    and "i < length (navLinks s)" and "navLinks s ! i = a"
  shows "filename_of a = Some []
     \<and> current_of pathname \<noteq> []
     \<and> \<not> classList_contains ''active'' (highlight (current_of pathname) a)
     \<and> \<not> classList_contains ''active'' (navLinks (page_ready year pathname s) ! i)
     \<and> \<not> (current_of pathname = [] \<and> filename_of b = Some ''index.html'')"
proof -
  obtain h' where "h = h' @ [CHR ''/'']"
    using assms(2,3) by (metis append_butlast_last_id)
  then have "last_segment h = []" by (simp add: last_segment_def)
  then have f: "filename_of a = Some []"
    using assms(1,2) by (simp add: filename_of_spec spec_target_filename_def)
  have c: "current_of pathname \<noteq> []" by (rule current_of_nonempty)
  have h: "\<not> classList_contains ''active'' (highlight (current_of pathname) a)"
    using f c by (auto simp: highlight_active)
  have "navLinks (page_ready year pathname s) ! i = highlight (current_of pathname) a"
    using assms(4,5) by (simp add: page_ready_def)
  with f c h show ?thesis by simp
qed

theorem trailing_slash_never_active_witness:
  "getAttribute ''href'' (anchor ''blog/'') = Some ''blog/'' \<and> ''blog/'' \<noteq> []
   \<and> last ''blog/'' = CHR ''/''
   \<and> (0::nat) < length (navLinks slash_page)
   \<and> navLinks slash_page ! 0 = anchor ''blog/''
   \<and> filename_of (anchor ''blog/'') = Some []
   \<and> \<not> classList_contains ''active''
         (navLinks (page_ready 2026 ''/blog/'' slash_page) ! 0)"
proof -
  have h: "getAttribute ''href'' (anchor ''blog/'') = Some ''blog/''" "''blog/'' \<noteq> []"
    "last ''blog/'' = CHR ''/''"
    "(0::nat) < length (navLinks slash_page)"
    "navLinks slash_page ! 0 = anchor ''blog/''"
    by (simp_all add: getAttribute_def anchor_def slash_page_def)
  show ?thesis
    using h trailing_slash_never_active[OF h, of "''/blog/''" 2026]
    by simp
qed

section \<open>Subscription form\<close>

lemma msg_text_set: "map_option textContent (map_option (set_textContent t) m) = map_option (\<lambda>_. t) m"
  by (cases m) (simp_all add: set_textContent_def)

lemma submit_error_path:
  assumes "falsy (map_option el_value (getElementById ''subEmail'' (controls s)))"
  shows "form_onsubmit e s
     = (e\<lparr>defaultPrevented := True\<rparr>, s\<lparr>msg := map_option (set_textContent invalid_text) (msg s)\<rparr>)"
  using assms by (simp add: form_onsubmit_def Let_def)

lemma submit_success_path:
  assumes "\<not> falsy (map_option el_value (getElementById ''subEmail'' (controls s)))"
  shows "form_onsubmit e s
     = (e\<lparr>defaultPrevented := True\<rparr>,
        s\<lparr>msg := map_option (set_textContent thanks_text) (msg s),
          controls := form_reset (controls s),
          timers := timers s @ [\<lparr>due = now s + 3500, callback = ClearMsg\<rparr>]\<rparr>)"
  using assms by (simp add: form_onsubmit_def Let_def setTimeout_def)

text \<open>
  C6. A submission while the email input's value is empty: the default action is
  suppressed, the status message (when the page has the element) reads exactly
  \<^verbatim>\<open>Please enter a valid email.\<close>, the controls keep their values (no reset), no timer
  is scheduled, and nothing but the message changes.
\<close>

theorem empty_email_rejected:
  assumes "getElementById ''subEmail'' (controls s) = Some c" and "el_value c = []"
  shows "defaultPrevented (fst (form_onsubmit e s))
     \<and> msg_text (snd (form_onsubmit e s))
         = map_option (\<lambda>_. ''Please enter a valid email.'') (msg s)
     \<and> controls (snd (form_onsubmit e s)) = controls s
     \<and> timers (snd (form_onsubmit e s)) = timers s
     \<and> snd (form_onsubmit e s) = s\<lparr>msg := msg (snd (form_onsubmit e s))\<rparr>"
proof -
  have "falsy (map_option el_value (getElementById ''subEmail'' (controls s)))"
    using assms by (simp add: falsy_def)
  then show ?thesis
    by (simp add: submit_error_path msg_text_def msg_text_set invalid_text_def)
qed

theorem empty_email_rejected_witness:
  "getElementById ''subEmail'' (controls sample_page)
     = Some \<lparr>ctl_id = ''subEmail'', el_value = '''', defaultValue = '''', in_form = True\<rparr>
   \<and> el_value \<lparr>ctl_id = ''subEmail'', el_value = '''', defaultValue = '''', in_form = True\<rparr> = []
   \<and> defaultPrevented (fst (form_onsubmit \<lparr>defaultPrevented = False\<rparr> sample_page))
   \<and> msg_text (snd (form_onsubmit \<lparr>defaultPrevented = False\<rparr> sample_page))
       = Some ''Please enter a valid email.''
   \<and> controls (snd (form_onsubmit \<lparr>defaultPrevented = False\<rparr> sample_page))
       = controls sample_page
   \<and> timers (snd (form_onsubmit \<lparr>defaultPrevented = False\<rparr> sample_page)) = []"
proof -
  have h: "getElementById ''subEmail'' (controls sample_page)
     = Some \<lparr>ctl_id = ''subEmail'', el_value = '''', defaultValue = '''', in_form = True\<rparr>"
    "el_value \<lparr>ctl_id = ''subEmail'', el_value = '''', defaultValue = '''', in_form = True\<rparr> = []"
    by (simp_all add: sample_page_def getElementById_def)
  have m: "msg sample_page = Some (plain [])" "timers sample_page = []"
    by (simp_all add: sample_page_def)
  show ?thesis
    using h empty_email_rejected[OF h, of "\<lparr>defaultPrevented = False\<rparr>"] m by simp
qed

text \<open>
  C10. On a page that has the form but no element with the id \<^verbatim>\<open>subEmail\<close>, a
  submission runs the listener, which takes the error path whatever the form's fields
  hold: the default action is suppressed, the status message (when the page has the
  element) reads \<^verbatim>\<open>Please enter a valid email.\<close>, the controls keep their values, no
  timer is scheduled, and nothing but the message changes.
\<close>

theorem missing_email_input_rejected:
  assumes "form s = Some f" and "getElementById ''subEmail'' (controls s) = None"
  shows "dispatch Submit s = Inr (snd (form_onsubmit \<lparr>defaultPrevented = False\<rparr> s))
     \<and> defaultPrevented (fst (form_onsubmit e s))
     \<and> msg_text (snd (form_onsubmit e s))
         = map_option (\<lambda>_. ''Please enter a valid email.'') (msg s)
     \<and> controls (snd (form_onsubmit e s)) = controls s
     \<and> timers (snd (form_onsubmit e s)) = timers s
     \<and> snd (form_onsubmit e s) = s\<lparr>msg := msg (snd (form_onsubmit e s))\<rparr>"
proof -
  have "falsy (map_option el_value (getElementById ''subEmail'' (controls s)))"
    using assms by (simp add: falsy_def)
  then show ?thesis
    using assms(1) by (simp add: submit_error_path msg_text_def msg_text_set invalid_text_def)
qed

theorem missing_email_input_rejected_witness:
  "form page_without_email = Some (plain [])
   \<and> getElementById ''subEmail'' (controls page_without_email) = None
   \<and> defaultPrevented (fst (form_onsubmit \<lparr>defaultPrevented = False\<rparr> page_without_email))
   \<and> msg_text (snd (form_onsubmit \<lparr>defaultPrevented = False\<rparr> page_without_email))
       = Some ''Please enter a valid email.''
   \<and> map el_value (controls (snd (form_onsubmit \<lparr>defaultPrevented = False\<rparr> page_without_email)))
       = [''Ann'']
   \<and> timers (snd (form_onsubmit \<lparr>defaultPrevented = False\<rparr> page_without_email)) = []"
proof -
  have h: "form page_without_email = Some (plain [])"
    "getElementById ''subEmail'' (controls page_without_email) = None"
    by (simp_all add: page_without_email_def sample_page_def getElementById_def)
  have m: "msg page_without_email = Some (plain [])" "timers page_without_email = []"
    "map el_value (controls page_without_email) = [''Ann'']"
    by (simp_all add: page_without_email_def sample_page_def)
  show ?thesis
    using h missing_email_input_rejected[OF h, of "\<lparr>defaultPrevented = False\<rparr>"] m by simp
qed

lemma clear_msg_idem: "clear_msg (clear_msg s) = clear_msg s"
  by (cases "msg s") (simp_all add: clear_msg_def set_textContent_def)

lemma fold_callbacks:
  "fold (\<lambda>x. run_callback (callback x)) xs s0 = (if xs = [] then s0 else clear_msg s0)"
proof (induction xs arbitrary: s0)
  case Nil
  show ?case by simp
next
  case (Cons x xs)
  show ?case by (cases "callback x") (simp add: Cons clear_msg_idem)
qed

lemma sort_key_Nil_iff: "(sort_key f xs = []) = (xs = [])"
  using length_sort[of f xs] by (metis length_0_conv)

lemma advance_eq:
  "advance d s =
     (if \<exists>x\<in>set (timers s). due x \<le> now s + d
      then clear_msg (s\<lparr>now := now s + d, timers := filter (\<lambda>x. \<not> due x \<le> now s + d) (timers s)\<rparr>)
      else s\<lparr>now := now s + d, timers := filter (\<lambda>x. \<not> due x \<le> now s + d) (timers s)\<rparr>)"
  by (simp add: advance_def Let_def fold_callbacks sort_key_Nil_iff filter_empty_conv)

lemma advance_now: "now (advance d s) = now s + d"
  by (simp add: advance_eq clear_msg_def)

lemma advance_timers:
  "timers (advance d s) = filter (\<lambda>x. \<not> due x \<le> now s + d) (timers s)"
  by (simp add: advance_eq clear_msg_def)

lemma advance_msg:
  "msg (advance d s) =
     (if \<exists>x\<in>set (timers s). due x \<le> now s + d then map_option (set_textContent []) (msg s)
      else msg s)"
  by (simp add: advance_eq clear_msg_def)

lemma run_Cons_fst: "fst (run (e # evs) s) = fst (run evs (fst (run [e] s)))"
  by (cases "dispatch e s"; cases "run evs s") simp_all

lemma run_quiet:
  assumes "e = ToggleClick \<or> e = LinkClick i \<or> e = UserInput j v"
  shows "msg (fst (run [e] s)) = msg s \<and> timers (fst (run [e] s)) = timers s
     \<and> now (fst (run [e] s)) = now s"
  using assms
  by (auto simp: navToggle_onclick_def link_onclick_def user_input_def
      split: option.splits prod.splits sum.splits if_splits)

lemma blank_advance: "blank s \<Longrightarrow> blank (advance d s)"
  by (cases "msg s") (auto simp: blank_def msg_text_def advance_msg set_textContent_def)

lemma fired_blank: "\<exists>x\<in>set (timers s). due x \<le> now s + d \<Longrightarrow> blank (advance d s)"
  by (cases "msg s") (auto simp: blank_def msg_text_def advance_msg set_textContent_def)

lemma cleared_eventually:
  assumes "Submit \<notin> set evs"
    and "blank s \<or> (\<exists>x\<in>set (timers s). now s < due x \<and> due x \<le> now s + elapsed evs)"
  shows "blank (fst (run evs s))"
  using assms
proof (induction evs arbitrary: s)
  case Nil
  then show ?case by auto
next
  case (Cons e evs)
  have q: "Submit \<notin> set evs" using Cons.prems(1) by simp
  show ?case
  proof (cases e)
    case (Tick d)
    have "blank (advance d s) \<or> (\<exists>x\<in>set (timers (advance d s)).
        now (advance d s) < due x \<and> due x \<le> now (advance d s) + elapsed evs)"
    proof (cases "blank s \<or> (\<exists>x\<in>set (timers s). due x \<le> now s + d)")
      case True
      then show ?thesis using blank_advance fired_blank by blast
    next
      case False
      with Cons.prems(2) Tick obtain x where x: "x \<in> set (timers s)" "due x \<le> now s + (d + elapsed evs)"
        by auto
      from False x(1) have "\<not> due x \<le> now s + d" by blast
      with x have "x \<in> set (timers (advance d s))" "now (advance d s) < due x"
        "due x \<le> now (advance d s) + elapsed evs"
        by (simp_all add: advance_timers advance_now)
      then show ?thesis by blast
    qed
    from Cons.IH[OF q this] show ?thesis
      using Tick by simp
  next
    case Submit
    with Cons.prems(1) show ?thesis by simp
  next
    case ToggleClick
    then have k: "msg (fst (run [e] s)) = msg s \<and> timers (fst (run [e] s)) = timers s
       \<and> now (fst (run [e] s)) = now s" using run_quiet[of e 0 0 "[]" s] by blast
    have "elapsed (e # evs) = elapsed evs" using ToggleClick by simp
    with Cons.prems(2) k
    have "blank (fst (run [e] s)) \<or> (\<exists>x\<in>set (timers (fst (run [e] s))).
        now (fst (run [e] s)) < due x \<and> due x \<le> now (fst (run [e] s)) + elapsed evs)"
      by (simp add: blank_def msg_text_def)
    from Cons.IH[OF q this] show ?thesis by (simp only: run_Cons_fst[of e evs s])
  next
    case (LinkClick i)
    then have k: "msg (fst (run [e] s)) = msg s \<and> timers (fst (run [e] s)) = timers s
       \<and> now (fst (run [e] s)) = now s" using run_quiet[of e i 0 "[]" s] by blast
    have "elapsed (e # evs) = elapsed evs" using LinkClick by simp
    with Cons.prems(2) k
    have "blank (fst (run [e] s)) \<or> (\<exists>x\<in>set (timers (fst (run [e] s))).
        now (fst (run [e] s)) < due x \<and> due x \<le> now (fst (run [e] s)) + elapsed evs)"
      by (simp add: blank_def msg_text_def)
    from Cons.IH[OF q this] show ?thesis by (simp only: run_Cons_fst[of e evs s])
  next
    case (UserInput j v)
    then have k: "msg (fst (run [e] s)) = msg s \<and> timers (fst (run [e] s)) = timers s
       \<and> now (fst (run [e] s)) = now s" using run_quiet[of e 0 j v s] by blast
    have "elapsed (e # evs) = elapsed evs" using UserInput by simp
    with Cons.prems(2) k
    have "blank (fst (run [e] s)) \<or> (\<exists>x\<in>set (timers (fst (run [e] s))).
        now (fst (run [e] s)) < due x \<and> due x \<le> now (fst (run [e] s)) + elapsed evs)"
      by (simp add: blank_def msg_text_def)
    from Cons.IH[OF q this] show ?thesis by (simp only: run_Cons_fst[of e evs s])
  qed
qed

lemma run_msg_present:
  "Submit \<notin> set evs \<Longrightarrow> map_option (\<lambda>_. t) (msg (fst (run evs s))) = map_option (\<lambda>_. t) (msg s)"
proof (induction evs arbitrary: s)
  case Nil
  show ?case by simp
next
  case (Cons e evs)
  have "map_option (\<lambda>_. t) (msg (fst (run [e] s))) = map_option (\<lambda>_. t) (msg s)"
  proof (cases e)
    case (Tick d)
    then show ?thesis by (cases "msg s") (simp_all add: advance_msg)
  next
    case Submit
    with Cons.prems show ?thesis by simp
  next
    case ToggleClick
    then show ?thesis using run_quiet[of e 0 0 "[]" s] by simp
  next
    case (LinkClick i)
    then show ?thesis using run_quiet[of e i 0 "[]" s] by simp
  next
    case (UserInput j v)
    then show ?thesis using run_quiet[of e 0 j v s] by simp
  qed
  note step = this
  have q: "Submit \<notin> set evs" using Cons.prems by simp
  have "map_option (\<lambda>_. t) (msg (fst (run (e # evs) s)))
      = map_option (\<lambda>_. t) (msg (fst (run evs (fst (run [e] s)))))"
    by (simp only: run_Cons_fst[of e evs s])
  also have "\<dots> = map_option (\<lambda>_. t) (msg (fst (run [e] s)))"
    by (rule Cons.IH[OF q])
  also have "\<dots> = map_option (\<lambda>_. t) (msg s)"
    by (rule step)
  finally show ?case .
qed

lemma submit_success_fields:
  assumes "getElementById ''subEmail'' (controls s) = Some c" and "el_value c \<noteq> []"
  shows "timers (snd (form_onsubmit e s)) = timers s @ [\<lparr>due = now s + 3500, callback = ClearMsg\<rparr>]"
    and "now (snd (form_onsubmit e s)) = now s"
    and "msg (snd (form_onsubmit e s)) = map_option (set_textContent thanks_text) (msg s)"
    and "controls (snd (form_onsubmit e s)) = form_reset (controls s)"
    and "defaultPrevented (fst (form_onsubmit e s))"
proof -
  have nf: "\<not> falsy (map_option el_value (getElementById ''subEmail'' (controls s)))"
    using assms by (simp add: falsy_def)
  note sp = submit_success_path[OF nf, of e]
  show "timers (snd (form_onsubmit e s)) = timers s @ [\<lparr>due = now s + 3500, callback = ClearMsg\<rparr>]"
    by (simp add: sp)
  show "now (snd (form_onsubmit e s)) = now s" by (simp add: sp)
  show "msg (snd (form_onsubmit e s)) = map_option (set_textContent thanks_text) (msg s)"
    by (simp add: sp)
  show "controls (snd (form_onsubmit e s)) = form_reset (controls s)" by (simp add: sp)
  show "defaultPrevented (fst (form_onsubmit e s))" by (simp add: sp)
qed

lemma form_reset_default:
  "\<forall>c\<in>set (form_reset cs). in_form c \<longrightarrow> el_value c = defaultValue c"
  by (auto simp: form_reset_def reset_control_def)

text \<open>
  C7. A submission while the email input's value is not empty: the status message (when
  the page has the element) reads exactly \<^verbatim>\<open>Thanks\<close>, a space, the dash U+2014 (the
  bytes E2 80 94), and \<^verbatim>\<open> you are subscribed!\<close>; every control the form
  owns is back at its default value, and after any later events without a submission
  during which at least 3500 time units pass, the status message is the empty string.
  Time is the logical clock of the model: a timer runs as soon as the clock reaches its
  due time.
\<close>

theorem subscribed_then_cleared:
  assumes "getElementById ''subEmail'' (controls s) = Some c" and "el_value c \<noteq> []"
    and "Submit \<notin> set evs" and "3500 \<le> elapsed evs"
  shows "defaultPrevented (fst (form_onsubmit e s))
     \<and> msg_text (snd (form_onsubmit e s))
         = map_option (\<lambda>_. ''Thanks '' @ [CHR 0xE2, CHR 0x80, CHR 0x94] @ '' you are subscribed!'')
             (msg s)
     \<and> controls (snd (form_onsubmit e s)) = form_reset (controls s)
     \<and> (\<forall>c'\<in>set (controls (snd (form_onsubmit e s))). in_form c' \<longrightarrow> el_value c' = defaultValue c')
     \<and> msg_text (fst (run evs (snd (form_onsubmit e s)))) = map_option (\<lambda>_. []) (msg s)"
proof -
  define s1 where "s1 = snd (form_onsubmit e s)"
  note f = submit_success_fields[OF assms(1,2), of e, folded s1_def]
  have "\<lparr>due = now s + 3500, callback = ClearMsg\<rparr> \<in> set (timers s1)"
    by (simp add: f(1))
  moreover have "now s1 < now s + 3500 \<and> now s + 3500 \<le> now s1 + elapsed evs"
    using assms(4) by (simp add: f(2))
  ultimately have "\<exists>x\<in>set (timers s1). now s1 < due x \<and> due x \<le> now s1 + elapsed evs"
    by (intro bexI[of _ "\<lparr>due = now s + 3500, callback = ClearMsg\<rparr>"]) simp_all
  then have "blank (fst (run evs s1))"
    using cleared_eventually[OF assms(3)] by blast
  then have "msg_text (fst (run evs s1)) = map_option (\<lambda>_. []) (msg s1)"
    using run_msg_present[OF assms(3), of "[]" s1] by (simp add: blank_def)
  also have "\<dots> = map_option (\<lambda>_. []) (msg s)"
    by (cases "msg s") (simp_all add: f(3))
  finally have fin: "msg_text (fst (run evs s1)) = map_option (\<lambda>_. []) (msg s)" .
  have m: "msg_text s1 = map_option (\<lambda>_. thanks_text) (msg s)"
    by (simp add: f(3) msg_text_def msg_text_set)
  have r: "\<forall>c'\<in>set (controls s1). in_form c' \<longrightarrow> el_value c' = defaultValue c'"
    using form_reset_default[of "controls s"] by (simp add: f(4))
  show ?thesis
    using f(5) m f(4) r fin unfolding s1_def thanks_text_def by blast
qed

theorem subscribed_then_cleared_witness:
  "getElementById ''subEmail'' (controls filled_page) = Some typed_email
   \<and> el_value typed_email \<noteq> []
   \<and> Submit \<notin> set [Tick 1000, ToggleClick, UserInput 0 ''c@d.org'', Tick 2500]
   \<and> 3500 \<le> elapsed [Tick 1000, ToggleClick, UserInput 0 ''c@d.org'', Tick 2500]
   \<and> msg_text (snd (form_onsubmit \<lparr>defaultPrevented = False\<rparr> filled_page))
       = Some (''Thanks '' @ [CHR 0xE2, CHR 0x80, CHR 0x94] @ '' you are subscribed!'')
   \<and> map el_value (controls (snd (form_onsubmit \<lparr>defaultPrevented = False\<rparr> filled_page)))
       = ['''', '''']
   \<and> msg_text (fst (run [Tick 1000, ToggleClick, UserInput 0 ''c@d.org'', Tick 2500]
         (snd (form_onsubmit \<lparr>defaultPrevented = False\<rparr> filled_page)))) = Some ''''"
proof -
  have h: "getElementById ''subEmail'' (controls filled_page) = Some typed_email"
    "el_value typed_email \<noteq> []"
    "Submit \<notin> set [Tick 1000, ToggleClick, UserInput 0 ''c@d.org'', Tick 2500]"
    "3500 \<le> elapsed [Tick 1000, ToggleClick, UserInput 0 ''c@d.org'', Tick 2500]"
    by (simp_all add: filled_page_def typed_controls_def typed_email_def sample_page_def
        getElementById_def)
  have m: "msg filled_page = Some (plain [])"
    "map el_value (form_reset (controls filled_page)) = ['''', '''']"
    by (simp_all add: filled_page_def typed_controls_def typed_email_def sample_page_def
        form_reset_def reset_control_def)
  show ?thesis
    using h m subscribed_then_cleared[OF h, of "\<lparr>defaultPrevented = False\<rparr>"]
    by simp
qed





end
